theory Spec2Isabelle
  imports Complex_Main "HOL-Library.Log_Nat"
begin

section \<open>Smart space heater controller: embedding of \<open>heater_control.py\<close>\<close>

text \<open>
  The controller keeps one shared \<open>HeaterConfig\<close> object, a background loop
  \<open>temperature_monitor\<close> that samples the sensor and switches the smart plug, and four
  request handlers. Every handler and every loop iteration runs under \<open>config.lock\<close>,
  so the model is a sequential one: each operation takes the world before it and
  returns the world after it.
\<close>

subsection \<open>Python floats\<close>

text \<open>
  A Python float is an IEEE binary64 value: a finite number, an infinity or NaN. A
  finite value is kept as the rational it stands for. The two zeros are one value
  here: they compare equal in Python, and nothing below depends on the sign of zero.
\<close>

datatype pyfloat = Fin rat | PInf | NInf | NaN

text \<open>The binary exponent of a positive rational: \<open>2^e \<le> a < 2^(e+1)\<close>.\<close>

definition ilog2 :: "rat \<Rightarrow> int" where
  "ilog2 a = (if 1 \<le> a then bitlen \<lfloor>a\<rfloor> - 1 else - bitlen (\<lceil>1 / a\<rceil> - 1))"

text \<open>The nearest integer, an exact tie going to the even one.\<close>

definition rhe :: "rat \<Rightarrow> int" where
  "rhe y =
     (let f = \<lfloor>y\<rfloor>; d = y - of_int f
      in if d < 1 / 2 then f
         else if 1 / 2 < d then f + 1
         else if even f then f else f + 1)"

text \<open>
  Rounding of an exact result to binary64, to nearest with ties to even: 53 significant
  bits, exponents from \<open>-1022\<close> (below that the spacing stays \<open>2^-1074\<close>) to 1023, and
  an infinity when the rounded value would reach \<open>2^1024\<close>.
\<close>

definition fl :: "rat \<Rightarrow> pyfloat" where
  "fl x =
     (if x = 0 then Fin 0
      else
        let a = \<bar>x\<bar>;
            e = max (ilog2 a) (- 1022)
        in if 1024 \<le> e then (if 0 < x then PInf else NInf)
           else
             let u = power_int 2 (e - 52);
                 n = rhe (a / u)
             in if e = 1023 \<and> n = 2 ^ 53 then (if 0 < x then PInf else NInf)
                else Fin (if 0 < x then of_int n * u else - (of_int n * u)))"

text \<open>
  The arithmetic the program does on floats always has a finite literal as its second
  operand: \<open>t * 9\<close>, \<open>/ 5\<close>, \<open>+ 32\<close>, \<open>- 0.5\<close>, \<open>+ 0.5\<close>. The exact result is rounded; an
  infinity or NaN as first operand stays what it is (the literals of \<open>*\<close> and \<open>/\<close> are
  positive).
\<close>

definition fadd :: "pyfloat \<Rightarrow> rat \<Rightarrow> pyfloat" where
  "fadd a c = (case a of Fin x \<Rightarrow> fl (x + c) | _ \<Rightarrow> a)"

definition fsub :: "pyfloat \<Rightarrow> rat \<Rightarrow> pyfloat" where
  "fsub a c = (case a of Fin x \<Rightarrow> fl (x - c) | _ \<Rightarrow> a)"

definition fmul :: "pyfloat \<Rightarrow> rat \<Rightarrow> pyfloat" where
  "fmul a c = (case a of Fin x \<Rightarrow> fl (x * c) | _ \<Rightarrow> a)"

definition fdiv :: "pyfloat \<Rightarrow> rat \<Rightarrow> pyfloat" where
  "fdiv a c = (case a of Fin x \<Rightarrow> fl (x / c) | _ \<Rightarrow> a)"

text \<open>The comparisons \<open><\<close> and \<open><=\<close>: every comparison with NaN is false.\<close>

fun flt :: "pyfloat \<Rightarrow> pyfloat \<Rightarrow> bool" where
  "flt (Fin x) (Fin y) = (x < y)"
| "flt (Fin x) PInf = True"
| "flt NInf (Fin y) = True"
| "flt NInf PInf = True"
| "flt _ _ = False"

fun fle :: "pyfloat \<Rightarrow> pyfloat \<Rightarrow> bool" where
  "fle (Fin x) (Fin y) = (x \<le> y)"
| "fle NaN _ = False"
| "fle _ NaN = False"
| "fle NInf _ = True"
| "fle _ PInf = True"
| "fle _ _ = False"

text \<open>
  \<open>round(x, 1)\<close>: the exact value of \<open>x\<close> is rounded to the nearest multiple of one
  tenth (ties to the even tenth) and the float nearest to that decimal is returned;
  an infinity or NaN is returned as it is.
\<close>

definition round1 :: "pyfloat \<Rightarrow> pyfloat" where
  "round1 a = (case a of Fin x \<Rightarrow> fl (of_int (rhe (x * 10)) / 10) | _ \<Rightarrow> a)"

subsection \<open>Data model\<close>

text \<open>One entry of \<open>config.temp_history\<close>: the dict \<open>{'time': ..., 'temp': ...}\<close>.\<close>

record sample =
  time :: string
  temp :: pyfloat

text \<open>The fields of \<open>class HeaterConfig\<close> (the lock itself carries no data).\<close>

record HeaterConfig =
  current_temp :: pyfloat
  target_temp :: pyfloat
  heater_on :: bool
  auto_mode :: bool
  temp_history :: "sample list"

text \<open>\<open>HeaterConfig.__init__\<close>.\<close>

definition HeaterConfig_init :: HeaterConfig where
  "HeaterConfig_init =
     \<lparr>current_temp = Fin 64, target_temp = Fin 66, heater_on = False, auto_mode = True,
      temp_history = []\<rparr>"

text \<open>
  The world of the program: the global \<open>config\<close> and the calls made so far on the
  global \<open>SMART_PLUG\<close>, oldest first (\<open>True\<close> for \<open>turn_on()\<close>, \<open>False\<close> for
  \<open>turn_off()\<close>).
\<close>

record world =
  config :: HeaterConfig
  plug_calls :: "bool list"

text \<open>Exceptions that the modelled code can meet.\<close>

datatype error = SensorError | TypeError | PlugError | OverflowError

text \<open>
  What the hardware does when it is asked: \<open>TEMP_SENSOR.temperature\<close> yields a Celsius
  value, yields \<open>None\<close>, or raises; a call on \<open>SMART_PLUG\<close> returns or raises. The
  Celsius value is taken as a float; a Python int of ordinary size gives the same
  results as the float of the same value.
\<close>

datatype sensor = Celsius pyfloat | SensorNone | SensorRaises

datatype plug = PlugReturns | PlugRaises

subsection \<open>Sensor and smart plug\<close>

text \<open>\<open>C2F\<close>: \<open>t * 9 / 5 + 32\<close>, each operation rounded.\<close>

definition C2F :: "pyfloat \<Rightarrow> pyfloat" where
  "C2F t = fadd (fdiv (fmul t 9) 5) 32"

text \<open>
  \<open>read_temperature\<close> returns \<open>C2F(TEMP_SENSOR.temperature)\<close>. A \<open>None\<close> from the
  sensor makes \<open>C2F\<close> raise a \<open>TypeError\<close>. The result type keeps the \<open>None\<close> that the
  caller tests for, although this body never returns it.
\<close>

definition read_temperature :: "sensor \<Rightarrow> error + pyfloat option" where
  "read_temperature sn =
     (case sn of
        Celsius t \<Rightarrow> Inr (Some (C2F t))
      | SensorNone \<Rightarrow> Inl TypeError
      | SensorRaises \<Rightarrow> Inl SensorError)"

text \<open>
  \<open>control_heater\<close>: \<open>config.heater_on\<close> is assigned first, then the plug is called;
  if the plug raises, the exception leaves the function with the assignment done.
\<close>

definition control_heater :: "bool \<Rightarrow> plug \<Rightarrow> world \<Rightarrow> (error + unit) \<times> world" where
  "control_heater turn_on pl w =
     (let w1 = w\<lparr>config := (config w)\<lparr>heater_on := turn_on\<rparr>\<rparr>;
          w2 = w1\<lparr>plug_calls := plug_calls w1 @ [turn_on]\<rparr>
      in (case pl of PlugReturns \<Rightarrow> Inr () | PlugRaises \<Rightarrow> Inl PlugError, w2))"

subsection \<open>The monitoring loop\<close>

text \<open>
  \<open>config.temp_history.append(e)\<close> followed by \<open>pop(0)\<close> when the list has grown
  beyond 100 entries.
\<close>

definition history_append :: "sample list \<Rightarrow> sample \<Rightarrow> sample list" where
  "history_append h e = (let h1 = h @ [e] in if length h1 > 100 then tl h1 else h1)"

text \<open>What one iteration of the loop reads from outside: the sensor, the clock, the plug.\<close>

record cycle_env =
  sensor_in :: sensor
  now :: string
  plug_in :: plug

text \<open>
  The body of the \<open>try\<close> block of one iteration. The first component tells whether
  an exception left the block. The two tests are \<open>temp < config.target_temp - 0.5\<close> and
  \<open>temp > config.target_temp + 0.5\<close>, on floats.
\<close>

definition monitor_try :: "cycle_env \<Rightarrow> world \<Rightarrow> (error + unit) \<times> world" where
  "monitor_try env w =
     (case read_temperature (sensor_in env) of
        Inl e \<Rightarrow> (Inl e, w)
      | Inr None \<Rightarrow> (Inr (), w)
      | Inr (Some t) \<Rightarrow>
          (let c1 = (config w)\<lparr>current_temp := t\<rparr>;
               c2 = c1\<lparr>temp_history :=
                      history_append (temp_history c1) \<lparr>time = now env, temp = round1 t\<rparr>\<rparr>;
               w2 = w\<lparr>config := c2\<rparr>
           in if auto_mode c2 then
                if flt t (fsub (target_temp c2) (1 / 2)) \<and> \<not> heater_on c2 then
                  control_heater True (plug_in env) w2
                else if flt (fadd (target_temp c2) (1 / 2)) t \<and> heater_on c2 then
                  control_heater False (plug_in env) w2
                else (Inr (), w2)
              else (Inr (), w2)))"

text \<open>
  One iteration: the \<open>except Exception\<close> clause prints the error and the loop goes on
  with whatever the \<open>try\<close> block had written.
\<close>

definition monitor_cycle :: "cycle_env \<Rightarrow> world \<Rightarrow> world" where
  "monitor_cycle env w = snd (monitor_try env w)"

text \<open>
  \<open>temperature_monitor\<close> is \<open>while True\<close>: it has no exit. Its first \<open>n\<close> iterations
  are determined by the first \<open>n\<close> environments, one per iteration.
\<close>

fun temperature_monitor :: "cycle_env list \<Rightarrow> world \<Rightarrow> world" where
  "temperature_monitor [] w = w"
| "temperature_monitor (env # envs) w = temperature_monitor envs (monitor_cycle env w)"

subsection \<open>Request handlers\<close>

text \<open>The JSON object of \<open>/api/status\<close>.\<close>

record status =
  st_current_temp :: pyfloat
  st_target_temp :: pyfloat
  st_heater_on :: bool
  st_auto_mode :: bool
  st_temp_history :: "sample list"

text \<open>The JSON bodies the handlers build, paired with the HTTP status code.\<close>

datatype body =
    Status status
  | TargetSet pyfloat
  | ModeSet bool
  | HeaterSet bool
  | Failure string

type_synonym response = "body \<times> nat"

text \<open>The last \<open>n\<close> elements: the slice \<open>xs[-n:]\<close> for positive \<open>n\<close>.\<close>

definition last_n :: "nat \<Rightarrow> 'a list \<Rightarrow> 'a list" where
  "last_n n xs = drop (length xs - n) xs"

definition get_status :: "world \<Rightarrow> (error + response) \<times> world" where
  "get_status w =
     (let c = config w
      in (Inr (Status \<lparr>st_current_temp = round1 (current_temp c),
                       st_target_temp = round1 (target_temp c),
                       st_heater_on = heater_on c,
                       st_auto_mode = auto_mode c,
                       st_temp_history = last_n 20 (temp_history c)\<rparr>, 200), w))"

text \<open>The message of the range check; the degree sign is two bytes in UTF-8.\<close>

definition range_message :: string where
  "range_message = ''Temperature must be between 50-85'' @ [CHR 0xC2, CHR 0xB0] @ ''F''"

definition mode_message :: string where
  "mode_message = ''Cannot manually control in auto mode''"

text \<open>
  A number as the JSON parser hands it to the handler: a Python int of any size, or a
  float (the parser has already rounded a decimal literal to the nearest float).
\<close>

datatype number = IntNum int | FloatNum pyfloat

text \<open>
  \<open>float(v)\<close>: a float is returned as it is; an int is rounded to the nearest float,
  and \<open>OverflowError\<close> is raised when it is too large for one.
\<close>

definition py_float :: "number \<Rightarrow> error + pyfloat" where
  "py_float v =
     (case v of
        FloatNum f \<Rightarrow> Inr f
      | IntNum n \<Rightarrow> (case fl (of_int n) of Fin r \<Rightarrow> Inr (Fin r) | _ \<Rightarrow> Inl OverflowError))"

text \<open>
  \<open>set_target\<close>: the argument is the numeric field \<open>target\<close> of the request body,
  \<open>None\<close> when the body has no such field (\<open>data.get('target', 22)\<close>). An exception
  of \<open>float\<close> is not caught: it leaves the handler. The range test compares the
  float with the ints 50 and 85.
\<close>

definition set_target :: "number option \<Rightarrow> world \<Rightarrow> (error + response) \<times> world" where
  "set_target field w =
     (case py_float (case field of None \<Rightarrow> IntNum 22 | Some v \<Rightarrow> v) of
        Inl e \<Rightarrow> (Inl e, w)
      | Inr target \<Rightarrow>
          if fle (Fin 50) target \<and> fle target (Fin 85) then
            (Inr (TargetSet target, 200), w\<lparr>config := (config w)\<lparr>target_temp := target\<rparr>\<rparr>)
          else (Inr (Failure range_message, 400), w))"

text \<open>\<open>set_mode\<close>: the field \<open>auto\<close> of the body, \<open>True\<close> when absent.\<close>

definition set_mode :: "bool option \<Rightarrow> world \<Rightarrow> (error + response) \<times> world" where
  "set_mode field w =
     (let auto = (case field of None \<Rightarrow> True | Some b \<Rightarrow> b)
      in (Inr (ModeSet auto, 200), w\<lparr>config := (config w)\<lparr>auto_mode := auto\<rparr>\<rparr>))"

text \<open>
  \<open>set_heater\<close>: the field \<open>on\<close> of the body, \<open>False\<close> when absent. An exception of
  the plug is not caught here: it leaves the handler.
\<close>

definition set_heater :: "bool option \<Rightarrow> plug \<Rightarrow> world \<Rightarrow> (error + response) \<times> world" where
  "set_heater field pl w =
     (let turn_on = (case field of None \<Rightarrow> False | Some b \<Rightarrow> b)
      in if \<not> auto_mode (config w) then
           (case control_heater turn_on pl w of
              (Inl e, w') \<Rightarrow> (Inl e, w')
            | (Inr _, w') \<Rightarrow> (Inr (HeaterSet turn_on, 200), w'))
         else (Inr (Failure mode_message, 400), w))"

text \<open>The world at start-up: the initial configuration, no plug call made yet.\<close>

definition world_init :: world where
  "world_init = \<lparr>config = HeaterConfig_init, plug_calls = []\<rparr>"

text \<open>
  The value of a number as it stands in the request, and the range test of the spec,
  \<open>50 \<le> v \<le> 85\<close>, on that value.
\<close>

definition num_value :: "number \<Rightarrow> pyfloat" where
  "num_value v = (case v of IntNum n \<Rightarrow> Fin (of_int n) | FloatNum f \<Rightarrow> f)"

definition in_range :: "number \<Rightarrow> bool" where
  "in_range v = (fle (Fin 50) (num_value v) \<and> fle (num_value v) (Fin 85))"

subsection \<open>Interleavings\<close>

text \<open>
  The loop body and the handlers exclude each other through \<open>config.lock\<close>, so a run
  of the program is a sequence of whole operations in some order.
\<close>

datatype request =
    Cycle cycle_env
  | GetStatus
  | SetTarget "number option"
  | SetMode "bool option"
  | SetHeater "bool option" plug

fun step :: "request \<Rightarrow> world \<Rightarrow> world" where
  "step (Cycle env) w = monitor_cycle env w"
| "step GetStatus w = snd (get_status w)"
| "step (SetTarget field) w = snd (set_target field w)"
| "step (SetMode field) w = snd (set_mode field w)"
| "step (SetHeater field pl) w = snd (set_heater field pl w)"

fun run :: "request list \<Rightarrow> world \<Rightarrow> world" where
  "run [] w = w"
| "run (r # rs) w = run rs (step r w)"

text \<open>
  The history entries that a run appends, oldest first: one for each loop iteration
  whose sensor read gave a value.
\<close>

fun samples :: "request list \<Rightarrow> sample list" where
  "samples [] = []"
| "samples (Cycle env # rs) =
     (case read_temperature (sensor_in env) of
        Inr (Some t) \<Rightarrow> \<lparr>time = now env, temp = round1 t\<rparr> # samples rs
      | _ \<Rightarrow> samples rs)"
| "samples (_ # rs) = samples rs"

text \<open>A loop iteration whose sensor read gives a value.\<close>

definition successful :: "request \<Rightarrow> bool" where
  "successful r =
     (case r of Cycle env \<Rightarrow> (case sensor_in env of Celsius _ \<Rightarrow> True | _ \<Rightarrow> False)
      | _ \<Rightarrow> False)"

text \<open>What \<open>/api/status\<close> shows as the current temperature, if it shows one.\<close>

definition reported_current_temp :: "world \<Rightarrow> pyfloat option" where
  "reported_current_temp w =
     (case fst (get_status w) of
        Inr (Status s, _) \<Rightarrow> Some (st_current_temp s)
      | _ \<Rightarrow> None)"

text \<open>A request handler answers with success: it returns and the HTTP code is 200.\<close>

definition succeeds :: "(error + response) \<Rightarrow> bool" where
  "succeeds r = (case r of Inr (_, code) \<Rightarrow> code = 200 | Inl _ \<Rightarrow> False)"

subsection \<open>Sample runs\<close>

text \<open>
  A loop iteration that reads \<open>i\<close> degrees Celsius at noon with a working plug, and
  the run of 150 such iterations reading 0, 1, ..., 149.
\<close>

definition cycle_at :: "nat \<Rightarrow> request" where
  "cycle_at i = Cycle \<lparr>sensor_in = Celsius (Fin (of_nat i)), now = ''12:00:00'', plug_in = PlugReturns\<rparr>"

definition cycles_150 :: "request list" where
  "cycles_150 = map cycle_at [0..<150]"

text \<open>A loop iteration that reads \<open>c\<close> degrees Celsius, and one whose sensor read raises.\<close>

definition reading :: "rat \<Rightarrow> plug \<Rightarrow> cycle_env" where
  "reading c pl = \<lparr>sensor_in = Celsius (Fin c), now = ''12:00:00'', plug_in = pl\<rparr>"

definition no_reading :: cycle_env where
  "no_reading = \<lparr>sensor_in = SensorRaises, now = ''12:00:05'', plug_in = PlugReturns\<rparr>"

text \<open>The start-up state with the heater switched on by one call of the plug.\<close>

definition heating_world :: world where
  "heating_world = \<lparr>config = HeaterConfig_init\<lparr>heater_on := True\<rparr>, plug_calls = [True]\<rparr>"

text \<open>The start-up state after a switch to manual mode.\<close>

definition manual_world :: world where
  "manual_world = snd (set_mode (Some False) world_init)"

text \<open>A run without a successful sensor read: a failed iteration and one of each request.\<close>

definition quiet_run :: "request list" where
  "quiet_run = [Cycle no_reading, GetStatus, SetTarget (Some (IntNum 70)), SetMode (Some False),
     SetHeater (Some True) PlugReturns]"

text \<open>
  The start-up state after a request for the target 66.35, which the JSON parser
  hands over as the nearest float (just below 66.35).
\<close>

definition world_6635 :: world where
  "world_6635 =
     snd (set_target (Some (FloatNum (Fin (2334483088094003 / 35184372088832)))) world_init)"



section \<open>Properties\<close>

subsection \<open>Rounding to binary64\<close>

lemma bitlen_pos: "0 < m \<Longrightarrow> 1 \<le> bitlen m"
  by (auto simp: bitlen_alt_def)

lemma bitlen_rat_bounds:
  assumes "0 < m"
  shows "power_int 2 (bitlen m - 1) \<le> (of_int m :: rat)"
    and "(of_int m :: rat) + 1 \<le> power_int 2 (bitlen m)"
proof -
  from assms have b1: "1 \<le> bitlen m" by (rule bitlen_pos)
  from bitlen_bounds [OF assms]
  have lo: "2 ^ nat (bitlen m - 1) \<le> m" and hi: "m + 1 \<le> 2 ^ nat (bitlen m)" by simp_all
  have "power_int 2 (bitlen m - 1) = (of_int (2 ^ nat (bitlen m - 1)) :: rat)"
    using b1 by (simp add: power_int_def)
  also have "\<dots> \<le> of_int m"
    using lo by (simp only: of_int_le_iff)
  finally show "power_int 2 (bitlen m - 1) \<le> (of_int m :: rat)" .
  have "(of_int m :: rat) + 1 = of_int (m + 1)" by simp
  also have "\<dots> \<le> of_int (2 ^ nat (bitlen m))"
    using hi by (simp only: of_int_le_iff)
  also have "\<dots> = power_int 2 (bitlen m)"
    using b1 by (simp add: power_int_def)
  finally show "(of_int m :: rat) + 1 \<le> power_int 2 (bitlen m)" .
qed

lemma ilog2_bounds:
  assumes "0 < a"
  shows "power_int 2 (ilog2 a) \<le> a \<and> a < power_int 2 (ilog2 a + 1)"
proof (cases "1 \<le> a")
  case True
  then have m0: "0 < \<lfloor>a\<rfloor>" by simp
  have "power_int 2 (bitlen \<lfloor>a\<rfloor> - 1) \<le> (of_int \<lfloor>a\<rfloor> :: rat)"
    using m0 by (rule bitlen_rat_bounds)
  also have "\<dots> \<le> a" by simp
  finally have L: "power_int 2 (bitlen \<lfloor>a\<rfloor> - 1) \<le> a" .
  have "a < of_int \<lfloor>a\<rfloor> + 1" by linarith
  also have "\<dots> \<le> power_int 2 (bitlen \<lfloor>a\<rfloor>)"
    using m0 by (rule bitlen_rat_bounds)
  finally have U: "a < power_int 2 (bitlen \<lfloor>a\<rfloor>)" .
  from L U True show ?thesis by (simp add: ilog2_def)
next
  case False
  define c where "c = 1 / a"
  define m where "m = \<lceil>c\<rceil> - 1"
  from False assms have c1: "1 < c" by (simp add: c_def)
  then have "2 \<le> \<lceil>c\<rceil>" by (simp add: le_ceiling_iff)
  then have m0: "0 < m" by (simp add: m_def)
  have mc: "of_int m < c" and cm: "c \<le> of_int m + 1"
    unfolding m_def by linarith+
  have lo: "power_int 2 (bitlen m - 1) \<le> (of_int m :: rat)"
    and hi: "(of_int m :: rat) + 1 \<le> power_int 2 (bitlen m)"
    using m0 by (rule bitlen_rat_bounds)+
  have c0: "0 < c" using c1 by simp
  have a: "a = 1 / c" using assms by (simp add: c_def)
  have p0: "0 < (power_int 2 k :: rat)" for k by simp
  have "c \<le> power_int 2 (bitlen m)" using cm hi by simp
  then have "1 / power_int 2 (bitlen m) \<le> 1 / c"
    using c0 by (simp add: frac_le)
  then have L: "power_int 2 (- bitlen m) \<le> a"
    by (simp add: a power_int_minus divide_inverse)
  have "power_int 2 (bitlen m - 1) < c" using mc lo by simp
  then have "1 / c < 1 / power_int 2 (bitlen m - 1)"
    using p0 [of "bitlen m - 1"] by (simp add: frac_less2)
  then have U: "a < power_int 2 (- bitlen m + 1)"
    using power_int_minus [of "2::rat" "bitlen m - 1"] by (simp add: a divide_inverse)
  from L U False show ?thesis by (simp add: ilog2_def c_def m_def)
qed

lemma ilog2_eqI:
  assumes "power_int 2 e \<le> a" and "a < power_int 2 (e + 1)"
  shows "ilog2 a = e"
proof -
  have "0 < (power_int 2 e :: rat)" by simp
  then have a0: "0 < a" using assms(1) by (rule less_le_trans)
  from ilog2_bounds [OF a0]
  have L: "power_int 2 (ilog2 a) \<le> a" and U: "a < power_int 2 (ilog2 a + 1)" by simp_all
  have "\<not> ilog2 a < e"
  proof
    assume "ilog2 a < e"
    then have "power_int (2::rat) (ilog2 a + 1) \<le> power_int 2 e"
      by (intro power_int_increasing) simp_all
    with U assms show False by simp
  qed
  moreover have "\<not> e < ilog2 a"
  proof
    assume "e < ilog2 a"
    then have "power_int (2::rat) (e + 1) \<le> power_int 2 (ilog2 a)"
      by (intro power_int_increasing) simp_all
    with L assms show False by simp
  qed
  ultimately show ?thesis by simp
qed

lemma rhe_near: "\<bar>y - of_int (rhe y)\<bar> \<le> 1 / 2"
proof -
  have "of_int \<lfloor>y\<rfloor> \<le> y" and "y < of_int \<lfloor>y\<rfloor> + 1"
    by linarith+
  then show ?thesis
    unfolding rhe_def Let_def by (simp add: abs_if) linarith
qed

lemma rhe_eqI:
  assumes "\<bar>y - of_int n\<bar> < 1 / 2"
  shows "rhe y = n"
proof (cases "of_int n \<le> y")
  case True
  with assms have "\<lfloor>y\<rfloor> = n"
    by (intro floor_unique) (simp_all add: abs_if split: if_splits)
  with assms True show ?thesis
    by (simp add: rhe_def Let_def abs_if split: if_splits)
next
  case False
  with assms have "\<lfloor>y\<rfloor> = n - 1"
    by (intro floor_unique) (simp_all add: abs_if split: if_splits)
  with assms False show ?thesis
    by (simp add: rhe_def Let_def abs_if split: if_splits)
qed

lemma fl_pos:
  assumes "power_int 2 e \<le> x" and "x < power_int 2 (e + 1)" and "- 1022 \<le> e" and "e < 1023"
    and "\<bar>x / power_int 2 (e - 52) - of_int n\<bar> < 1 / 2"
  shows "fl x = Fin (of_int n * power_int 2 (e - 52))"
proof -
  have "0 < (power_int 2 e :: rat)" by simp
  then have x0: "0 < x" using assms(1) by (rule less_le_trans)
  have i: "ilog2 x = e"
    using assms(1,2) by (rule ilog2_eqI)
  have n: "rhe (x / power_int 2 (e - 52)) = n"
    using assms(5) by (rule rhe_eqI)
  from x0 assms(3,4) show ?thesis
    by (simp add: fl_def i n Let_def)
qed

lemma fl_neg:
  assumes "power_int 2 e \<le> x" and "x < power_int 2 (e + 1)" and "- 1022 \<le> e" and "e < 1023"
    and "\<bar>x / power_int 2 (e - 52) - of_int n\<bar> < 1 / 2"
  shows "fl (- x) = Fin (- (of_int n * power_int 2 (e - 52)))"
proof -
  have "0 < (power_int 2 e :: rat)" by simp
  then have x0: "0 < x" using assms(1) by (rule less_le_trans)
  have i: "ilog2 x = e"
    using assms(1,2) by (rule ilog2_eqI)
  have n: "rhe (x / power_int 2 (e - 52)) = n"
    using assms(5) by (rule rhe_eqI)
  from x0 assms(3,4) show ?thesis
    by (simp add: fl_def i n Let_def)
qed

lemma fl_huge:
  assumes "power_int 2 1024 \<le> x"
  shows "fl x = PInf"
proof -
  have "0 < (power_int 2 1024 :: rat)" by simp
  then have x0: "0 < x" using assms by (rule less_le_trans)
  from ilog2_bounds [OF x0] have U: "x < power_int 2 (ilog2 x + 1)" by simp
  have "\<not> ilog2 x + 1 \<le> 1024"
  proof
    assume "ilog2 x + 1 \<le> 1024"
    then have "power_int (2::rat) (ilog2 x + 1) \<le> power_int 2 1024"
      by (intro power_int_increasing) simp_all
    with U assms show False by simp
  qed
  then have "1024 \<le> ilog2 x" by simp
  with x0 show ?thesis
    by (simp add: fl_def Let_def)
qed

lemma rhe_tie:
  assumes "y = of_int f + 1 / 2"
  shows "rhe y = (if even f then f else f + 1)"
proof -
  have "\<lfloor>y\<rfloor> = f"
    unfolding assms by (intro floor_unique) simp_all
  then show ?thesis
    by (simp add: rhe_def Let_def assms)
qed

lemma fl_pos_tie:
  assumes "power_int 2 e \<le> x" and "x < power_int 2 (e + 1)" and "- 1022 \<le> e" and "e < 1023"
    and "x / power_int 2 (e - 52) = of_int f + 1 / 2"
  shows "fl x = Fin (of_int (if even f then f else f + 1) * power_int 2 (e - 52))"
proof -
  have "0 < (power_int 2 e :: rat)" by simp
  then have x0: "0 < x" using assms(1) by (rule less_le_trans)
  have i: "ilog2 x = e"
    using assms(1,2) by (rule ilog2_eqI)
  have n: "rhe (x / power_int 2 (e - 52)) = (if even f then f else f + 1)"
    using assms(5) by (rule rhe_tie)
  from x0 assms(3,4) show ?thesis
    by (simp add: fl_def i n Let_def del: of_int_add)
qed

text \<open>Values of the rounding used below.\<close>

lemma fl_22: "fl 22 = Fin 22"
  using fl_pos [of 4 22 "22 * 2 ^ 48"] by simp

lemma fl_64: "fl 64 = Fin 64"
  using fl_pos [of 6 64 "2 ^ 52"] by simp

lemma fl_131_2: "fl (131 / 2) = Fin (131 / 2)"
  using fl_pos [of 6 "131 / 2" 4609152743636992] by simp

lemma fl_133_2: "fl (133 / 2) = Fin (133 / 2)"
  using fl_pos [of 6 "133 / 2" 4679521487814656] by simp

lemma round1_64: "round1 (Fin 64) = Fin 64"
  using rhe_eqI [of 640 640] by (simp add: round1_def fl_64)

lemma C2F_18: "C2F (Fin 18) = Fin (2265873562520781 / 35184372088832)"
proof -
  have a: "fl 162 = Fin 162"
    using fl_pos [of 7 162 5699868278390784] by simp
  have b: "fl (162 / 5) = Fin (4559894622712627 / 140737488355328)"
    using fl_pos [of 5 "162 / 5" 4559894622712627] by simp
  have c: "fl (9063494250083123 / 140737488355328) = Fin (2265873562520781 / 35184372088832)"
    using fl_pos_tie [of 6 "9063494250083123 / 140737488355328" 4531747125041561] by simp
  show ?thesis
    by (simp add: C2F_def fmul_def fdiv_def fadd_def a b c)
qed

lemma rhe_tie_even:
  assumes "\<bar>y - of_int (rhe y)\<bar> = 1 / 2"
  shows "even (rhe y)"
proof -
  define f where "f = \<lfloor>y\<rfloor>"
  have b: "of_int f \<le> y" "y < of_int f + 1"
    unfolding f_def by linarith+
  have r: "rhe y = (if y - of_int f < 1 / 2 then f
      else if 1 / 2 < y - of_int f then f + 1
      else if even f then f else f + 1)"
    by (simp add: rhe_def Let_def f_def)
  show ?thesis
  proof (cases "y - of_int f = 1 / 2")
    case True
    then show ?thesis by (simp add: r)
  next
    case False
    with b have "\<bar>y - of_int (rhe y)\<bar> \<noteq> 1 / 2"
      unfolding r by (simp add: abs_if)
    with assms show ?thesis by simp
  qed
qed

lemma round1_Fin:
  "\<exists>k. \<bar>x * 10 - of_int k\<bar> \<le> 1 / 2 \<and> (\<bar>x * 10 - of_int k\<bar> = 1 / 2 \<longrightarrow> even k)
       \<and> round1 (Fin x) = fl (of_int k / 10)"
proof (intro exI conjI)
  show "\<bar>x * 10 - of_int (rhe (x * 10))\<bar> \<le> 1 / 2"
    by (rule rhe_near)
  show "\<bar>x * 10 - of_int (rhe (x * 10))\<bar> = 1 / 2 \<longrightarrow> even (rhe (x * 10))"
    by (simp add: rhe_tie_even)
  show "round1 (Fin x) = fl (of_int (rhe (x * 10)) / 10)"
    by (simp add: round1_def)
qed

lemma round1_other: "a \<in> {PInf, NInf, NaN} \<Longrightarrow> round1 a = a"
  by (auto simp add: round1_def)

lemma round1_6635:
  "round1 (Fin (2334483088094003 / 35184372088832)) = Fin (4665447738979123 / 70368744177664)"
proof -
  have a: "rhe (11672415440470015 / 17592186044416) = 663"
    by (rule rhe_eqI) simp
  have b: "fl (663 / 10) = Fin (4665447738979123 / 70368744177664)"
    using fl_pos [of 6 "663 / 10" 4665447738979123] by simp
  show ?thesis
    by (simp add: round1_def a b)
qed

lemma world_6635_config:
  "config world_6635 =
     HeaterConfig_init\<lparr>target_temp := Fin (2334483088094003 / 35184372088832)\<rparr>"
  by (simp add: world_6635_def set_target_def py_float_def world_init_def)

subsection \<open>The history\<close>

lemma length_history_append:
  "length h \<le> 100 \<Longrightarrow> length (history_append h e) \<le> 100"
  by (simp add: history_append_def Let_def)

lemma history_append_full:
  "length h = 100 \<Longrightarrow> history_append h e = tl h @ [e]"
  by (cases h) (simp_all add: history_append_def Let_def)

lemma history_append_room:
  "length h < 100 \<Longrightarrow> history_append h e = h @ [e]"
  by (simp add: history_append_def Let_def)

lemma history_append_last_n:
  assumes "length h \<le> 100"
  shows "history_append h e = last_n 100 (h @ [e])"
proof (cases "length h = 100")
  case True
  then have "last_n 100 (h @ [e]) = drop (Suc 0) (h @ [e])"
    by (simp add: last_n_def)
  also have "\<dots> = tl h @ [e]"
    using True by (cases h) simp_all
  finally show ?thesis
    using True by (simp add: history_append_full)
next
  case False
  with assms have "length h < 100" by simp
  then show ?thesis
    by (simp add: history_append_room last_n_def)
qed

lemma last_n_append_last_n:
  "last_n n (last_n n xs @ ys) = last_n n (xs @ ys)"
proof (cases "length xs \<le> n")
  case True
  then show ?thesis by (simp add: last_n_def)
next
  case False
  then have "length ys - n + (length xs - n + n) = length xs + (length ys - n)"
    and "length xs + length ys - (length xs - n + n) + (length xs - n) = length xs + length ys - n"
    by simp_all
  with False show ?thesis
    by (simp add: last_n_def)
qed

lemma history_control_heater:
  "temp_history (config (snd (control_heater b pl w))) = temp_history (config w)"
  by (cases pl) (simp_all add: control_heater_def)

lemma history_monitor_cycle:
  "temp_history (config (monitor_cycle env w)) =
     (case read_temperature (sensor_in env) of
        Inr (Some t) \<Rightarrow> history_append (temp_history (config w)) \<lparr>time = now env, temp = round1 t\<rparr>
      | _ \<Rightarrow> temp_history (config w))"
  by (simp add: monitor_cycle_def monitor_try_def Let_def history_control_heater
      split: sum.splits option.splits)

lemma history_set_heater:
  "temp_history (config (snd (set_heater f pl w))) = temp_history (config w)"
  by (cases pl) (simp_all add: set_heater_def control_heater_def Let_def)

lemma history_run:
  "length (temp_history (config w)) \<le> 100 \<Longrightarrow>
   temp_history (config (run rs w)) = last_n 100 (temp_history (config w) @ samples rs)"
proof (induction rs arbitrary: w)
  case Nil
  then show ?case by (simp add: last_n_def)
next
  case (Cons r rs)
  show ?case
  proof (cases "\<exists>env t. r = Cycle env \<and> read_temperature (sensor_in env) = Inr (Some t)")
    case True
    then obtain env t where r: "r = Cycle env"
      and t: "read_temperature (sensor_in env) = Inr (Some t)" by blast
    let ?e = "\<lparr>time = now env, temp = round1 t\<rparr>"
    have h: "temp_history (config (step r w)) = last_n 100 (temp_history (config w) @ [?e])"
      using r t Cons.prems by (simp add: history_monitor_cycle history_append_last_n)
    then have "length (temp_history (config (step r w))) \<le> 100"
      by (simp add: last_n_def)
    then have "temp_history (config (run rs (step r w))) =
        last_n 100 (temp_history (config (step r w)) @ samples rs)"
      by (rule Cons.IH)
    also have "\<dots> = last_n 100 ((temp_history (config w) @ [?e]) @ samples rs)"
      unfolding h by (rule last_n_append_last_n)
    finally show ?thesis
      using r t by simp
  next
    case False
    have same: "temp_history (config (step r w)) = temp_history (config w)"
    proof (cases r)
      case (Cycle env)
      with False show ?thesis
        by (simp add: history_monitor_cycle split: sum.splits option.splits)
    qed (simp_all add: get_status_def set_target_def set_mode_def history_set_heater Let_def
        split: sum.splits)
    have smp: "samples (r # rs) = samples rs"
    proof (cases r)
      case (Cycle env)
      with False show ?thesis
        by (simp split: sum.splits option.splits)
    qed simp_all
    from same Cons.prems have "length (temp_history (config (step r w))) \<le> 100" by simp
    then have "temp_history (config (run rs (step r w))) =
        last_n 100 (temp_history (config (step r w)) @ samples rs)"
      by (rule Cons.IH)
    with same smp show ?thesis by simp
  qed
qed

lemma run_cycles:
  "run (map Cycle envs) w = temperature_monitor envs w"
  by (induction envs arbitrary: w) simp_all

lemma samples_Cons:
  "samples (r # rs) = samples [r] @ samples rs"
  by (cases r) (simp_all split: sum.splits option.splits)

lemma length_samples_one:
  "length (samples [r]) = (if successful r then 1 else 0)"
proof (cases r)
  case (Cycle env)
  then show ?thesis
    by (cases "sensor_in env") (simp_all add: successful_def read_temperature_def)
qed (simp_all add: successful_def)

lemma length_samples:
  "length (samples rs) = length (filter successful rs)"
proof (induction rs)
  case Nil
  show ?case by simp
next
  case (Cons r rs)
  have "length (samples (r # rs)) = length (samples [r]) + length (samples rs)"
    by (subst samples_Cons) simp
  with Cons show ?case
    by (simp add: length_samples_one)
qed

lemma last_n_overflow:
  assumes "length xs \<le> n" and "length ys = n + k"
  shows "last_n n (xs @ ys) = drop k ys"
proof -
  have "length (xs @ ys) - n = length xs + k"
    using assms by simp
  then show ?thesis
    by (simp add: last_n_def)
qed

lemma successful_cycle_at: "successful (cycle_at i)"
  by (simp add: successful_def cycle_at_def)

lemma filter_successful_cycle_at: "filter successful (map cycle_at ns) = map cycle_at ns"
  by (induction ns) (simp_all add: successful_cycle_at)

lemma length_cycles_150: "length (filter successful cycles_150) = 150"
  unfolding cycles_150_def filter_successful_cycle_at by simp

lemma history_init: "length (temp_history (config world_init)) \<le> 100"
  by (simp add: world_init_def HeaterConfig_init_def)

text \<open>
  C3: the history is a first-in first-out list of at most 100 entries. In every state
  reached from start-up it has at most 100 entries; an append to a history of at most
  100 entries leaves at most 100; an append to a full history drops exactly the oldest
  entry and puts the new one last; and after a run with 150 successful sensor cycles
  (whatever else happens in between) the history is the last 100 of their samples,
  oldest first.
\<close>

theorem history_bounded_fifo:
  "length (temp_history (config (run rs world_init))) \<le> 100
   \<and> (length h \<le> 100 \<longrightarrow> length (history_append h e) \<le> 100)
   \<and> (length h = 100 \<longrightarrow> history_append h e = tl h @ [e])
   \<and> (length (temp_history (config w)) \<le> 100 \<and> length (filter successful rs) = 150 \<longrightarrow>
        temp_history (config (run rs w)) = drop 50 (samples rs)
        \<and> length (temp_history (config (run rs w))) = 100)"
proof (intro conjI impI)
  have "temp_history (config (run rs world_init)) =
      last_n 100 (temp_history (config world_init) @ samples rs)"
    using history_init by (rule history_run)
  then show "length (temp_history (config (run rs world_init))) \<le> 100"
    by (simp add: last_n_def)
next
  assume "length h \<le> 100"
  then show "length (history_append h e) \<le> 100"
    by (rule length_history_append)
next
  assume "length h = 100"
  then show "history_append h e = tl h @ [e]"
    by (rule history_append_full)
next
  assume a: "length (temp_history (config w)) \<le> 100 \<and> length (filter successful rs) = 150"
  then have len: "length (samples rs) = 100 + 50"
    by (simp add: length_samples)
  have "temp_history (config (run rs w)) = last_n 100 (temp_history (config w) @ samples rs)"
    using a by (simp add: history_run)
  also have "\<dots> = drop 50 (samples rs)"
    using a len by (simp add: last_n_overflow)
  finally show h: "temp_history (config (run rs w)) = drop 50 (samples rs)" .
  show "length (temp_history (config (run rs w))) = 100"
    unfolding h using len by simp
qed

theorem history_bounded_fifo_witness:
  "length (temp_history (config world_init)) \<le> 100
   \<and> length (filter successful cycles_150) = 150
   \<and> temp_history (config (run cycles_150 world_init)) = drop 50 (samples cycles_150)
   \<and> length (temp_history (config (run cycles_150 world_init))) = 100"
  using history_init length_cycles_150
    history_bounded_fifo [of cycles_150 "[]" "\<lparr>time = [], temp = Fin 0\<rparr>" world_init]
  by blast

subsection \<open>The control loop\<close>

lemma monitor_cycle_reading:
  assumes "sensor_in env = Celsius c"
  shows "monitor_cycle env w =
     (let t = C2F c;
          w2 = w\<lparr>config := (config w)\<lparr>current_temp := t,
                 temp_history := history_append (temp_history (config w))
                                   \<lparr>time = now env, temp = round1 t\<rparr>\<rparr>\<rparr>
      in if auto_mode (config w) then
           if flt t (fsub (target_temp (config w)) (1 / 2)) \<and> \<not> heater_on (config w) then
             snd (control_heater True (plug_in env) w2)
           else if flt (fadd (target_temp (config w)) (1 / 2)) t \<and> heater_on (config w) then
             snd (control_heater False (plug_in env) w2)
           else w2
         else w2)"
  using assms by (simp add: monitor_cycle_def monitor_try_def read_temperature_def Let_def)

lemma control_heater_snd:
  "snd (control_heater b pl w) =
     w\<lparr>config := (config w)\<lparr>heater_on := b\<rparr>, plug_calls := plug_calls w @ [b]\<rparr>"
  by (simp add: control_heater_def Let_def)









lemma temperature_monitor_fold:
  "temperature_monitor envs w = fold monitor_cycle envs w"
  by (induction envs arbitrary: w) simp_all

lemma C2F_20: "C2F (Fin 20) = Fin 68"
proof -
  have a: "fl 180 = Fin 180"
    using fl_pos [of 7 180 6333186975989760] by simp
  have b: "fl 36 = Fin 36"
    using fl_pos [of 5 36 5066549580791808] by simp
  have c: "fl 68 = Fin 68"
    using fl_pos [of 6 68 4785074604081152] by simp
  show ?thesis
    by (simp add: C2F_def fmul_def fdiv_def fadd_def a b c)
qed

text \<open>
  C4: a loop iteration whose sensor read fails (the sensor raises, or yields \<open>None\<close>,
  on which the conversion raises) leaves the whole world as it was: \<open>current_temp\<close>,
  the history, \<open>target_temp\<close>, \<open>auto_mode\<close>, \<open>heater_on\<close>, and no call of the plug.
  The exception is caught and the loop does not stop: the iterations that follow all
  run, the next one on that same world, so the loop after a failed iteration does
  what the later iterations do one after the other.
\<close>

theorem sensor_failure_skips_cycle:
  assumes "sensor_in env = SensorNone \<or> sensor_in env = SensorRaises"
  shows "monitor_cycle env w = w
     \<and> (\<exists>e. fst (monitor_try env w) = Inl e)
     \<and> temperature_monitor (env # envs) w = temperature_monitor envs w
     \<and> temperature_monitor (env # env' # envs) w = temperature_monitor envs (monitor_cycle env' w)
     \<and> temperature_monitor (env # envs) w = fold monitor_cycle envs w"
proof -
  from assms have same: "monitor_cycle env w = w" and exc: "\<exists>e. fst (monitor_try env w) = Inl e"
    by (auto simp add: monitor_cycle_def monitor_try_def read_temperature_def)
  from same exc show ?thesis
    by (simp add: temperature_monitor_fold)
qed

theorem sensor_failure_skips_cycle_witness:
  "monitor_cycle no_reading heating_world = heating_world
   \<and> temperature_monitor [no_reading, reading 20 PlugReturns] heating_world =
       monitor_cycle (reading 20 PlugReturns) heating_world
   \<and> current_temp (config (temperature_monitor [no_reading, reading 20 PlugReturns] heating_world))
       = Fin 68
   \<and> heater_on (config (temperature_monitor [no_reading, reading 20 PlugReturns] heating_world))
       = False
   \<and> plug_calls (temperature_monitor [no_reading, reading 20 PlugReturns] heating_world)
       = [True, False]"
proof -
  have f: "sensor_in no_reading = SensorNone \<or> sensor_in no_reading = SensorRaises"
    by (simp add: no_reading_def)
  have next_cycle: "temperature_monitor [no_reading, reading 20 PlugReturns] heating_world =
      monitor_cycle (reading 20 PlugReturns) heating_world"
    using sensor_failure_skips_cycle [OF f, of heating_world "[]" "reading 20 PlugReturns"]
    by simp
  have same: "monitor_cycle no_reading heating_world = heating_world"
    using sensor_failure_skips_cycle [OF f, of heating_world "[]" "reading 20 PlugReturns"]
    by simp
  have s: "sensor_in (reading 20 PlugReturns) = Celsius (Fin 20)"
    by (simp add: reading_def)
  have eff: "monitor_cycle (reading 20 PlugReturns) heating_world =
      \<lparr>config = \<lparr>current_temp = Fin 68, target_temp = Fin 66, heater_on = False,
          auto_mode = True,
          temp_history = [\<lparr>time = ''12:00:00'', temp = round1 (Fin 68)\<rparr>]\<rparr>,
       plug_calls = [True, False]\<rparr>"
  proof -
    have e: "now (reading 20 PlugReturns) = ''12:00:00''"
      "plug_in (reading 20 PlugReturns) = PlugReturns"
      by (simp_all add: reading_def)
    show ?thesis
      by (simp add: monitor_cycle_reading [OF s] e C2F_20 heating_world_def HeaterConfig_init_def
          fsub_def fadd_def fl_131_2 fl_133_2 control_heater_snd history_append_def Let_def)
  qed
  show ?thesis
    unfolding next_cycle using same by (simp add: eff)
qed

subsection \<open>Numbers in requests\<close>

lemma rhe_lower:
  assumes "of_int m \<le> y"
  shows "m \<le> rhe y"
proof -
  have "\<bar>y - of_int (rhe y)\<bar> \<le> 1 / 2" by (rule rhe_near)
  with assms have "(of_int m :: rat) - 1 < of_int (rhe y)"
    by (simp add: abs_if split: if_splits)
  then have "(of_int (m - 1) :: rat) < of_int (rhe y)" by simp
  then have "m - 1 < rhe y" by (simp only: of_int_less_iff)
  then show ?thesis by simp
qed

lemma fl_nonpos:
  assumes "x \<le> 0"
  shows "fl x = NInf \<or> (\<exists>r. fl x = Fin r \<and> r \<le> 0)"
proof (cases "x = 0")
  case True
  then show ?thesis by (simp add: fl_def)
next
  case False
  with assms have x: "x < 0" by simp
  define u :: rat where "u = power_int 2 (max (ilog2 \<bar>x\<bar>) (- 1022) - 52)"
  have u0: "0 < u" by (simp add: u_def)
  have "(of_int 0 :: rat) \<le> \<bar>x\<bar> / u" using u0 by simp
  then have "0 \<le> rhe (\<bar>x\<bar> / u)" by (rule rhe_lower)
  then have "0 \<le> (of_int (rhe (\<bar>x\<bar> / u)) :: rat) * u" using u0 by simp
  with x show ?thesis
    by (simp add: fl_def Let_def u_def)
qed

lemma fl_large:
  assumes "power_int 2 k \<le> x" and "0 \<le> k"
  shows "fl x = PInf \<or> (\<exists>r. fl x = Fin r \<and> power_int 2 k \<le> r)"
proof -
  have "0 < (power_int 2 k :: rat)" by simp
  then have x0: "0 < x" using assms(1) by (rule less_le_trans)
  define e where "e = ilog2 x"
  from ilog2_bounds [OF x0]
  have L: "power_int 2 e \<le> x" and U: "x < power_int 2 (e + 1)" by (simp_all add: e_def)
  have ke: "k \<le> e"
  proof (rule ccontr)
    assume "\<not> k \<le> e"
    then have "power_int (2::rat) (e + 1) \<le> power_int 2 k"
      by (intro power_int_increasing) simp_all
    with U assms(1) show False by simp
  qed
  define u :: rat where "u = power_int 2 (e - 52)"
  have u0: "0 < u" by (simp add: u_def)
  have "power_int 2 e / u = (power_int 2 52 :: rat)"
    by (simp add: u_def power_int_diff)
  moreover have "power_int 2 e / u \<le> x / u"
    using L u0 by (intro divide_right_mono) simp_all
  ultimately have "(of_int (2 ^ 52) :: rat) \<le> x / u"
    by simp
  then have "2 ^ 52 \<le> rhe (x / u)" by (rule rhe_lower)
  then have "(of_int (2 ^ 52) :: rat) \<le> of_int (rhe (x / u))"
    by (simp only: of_int_le_iff)
  then have "of_int (2 ^ 52) * u \<le> of_int (rhe (x / u)) * u"
    using u0 by (simp only: mult_le_cancel_right_pos)
  moreover have "(of_int (2 ^ 52) :: rat) * u = power_int 2 e"
    using power_int_add [of "2::rat" 52 "e - 52"] by (simp add: u_def)
  moreover have "(power_int 2 k :: rat) \<le> power_int 2 e"
    using ke by (intro power_int_increasing) simp_all
  ultimately have r: "power_int 2 k \<le> of_int (rhe (x / u)) * u" by simp
  have m: "max e (- 1022) = e" using ke assms(2) by simp
  from x0 r show ?thesis
    by (simp add: fl_def Let_def e_def [symmetric] m u_def [symmetric])
qed

lemma fl_int_exact:
  assumes "0 < n" and "n < 2 ^ 53"
  shows "fl (of_int n) = Fin (of_int n)"
proof -
  define x :: rat where "x = of_int n"
  have x1: "1 \<le> x" using assms(1) by (simp add: x_def)
  then have x0: "0 < x" by simp
  have xu: "x < 2 ^ 53" using assms(2) by (simp add: x_def)
  define e where "e = ilog2 x"
  from ilog2_bounds [OF x0]
  have L: "power_int 2 e \<le> x" and U: "x < power_int 2 (e + 1)" by (simp_all add: e_def)
  have e0: "0 \<le> e"
  proof (rule ccontr)
    assume "\<not> 0 \<le> e"
    then have "power_int (2::rat) (e + 1) \<le> power_int 2 0"
      by (intro power_int_increasing) simp_all
    with U x1 show False by simp
  qed
  have e52: "e \<le> 52"
  proof (rule ccontr)
    assume "\<not> e \<le> 52"
    then have "power_int (2::rat) 53 \<le> power_int 2 e"
      by (intro power_int_increasing) simp_all
    with L xu show False by simp
  qed
  define m where "m = n * 2 ^ nat (52 - e)"
  have p: "power_int (2::rat) (52 - e) = 2 ^ nat (52 - e)"
    using e52 by (simp add: power_int_def)
  have q: "power_int (2::rat) (e - 52) * power_int 2 (52 - e) = 1"
    using power_int_add [of "2::rat" "e - 52" "52 - e"] by simp
  have sc: "x / power_int 2 (e - 52) = of_int m"
  proof -
    have "x = x * (power_int 2 (e - 52) * power_int 2 (52 - e))" by (simp add: q)
    then have "x / power_int 2 (e - 52) = x * power_int 2 (52 - e)"
      by (simp add: field_simps)
    then show ?thesis by (simp add: p m_def x_def)
  qed
  have inv: "of_int m * power_int 2 (e - 52) = x"
    using sc by (simp add: field_simps)
  have "fl x = Fin (of_int m * power_int 2 (e - 52))"
  proof (rule fl_pos [OF L U])
    show "- 1022 \<le> e" using e0 by simp
    show "e < 1023" using e52 by simp
    show "\<bar>x / power_int 2 (e - 52) - of_int m\<bar> < 1 / 2" by (simp add: sc)
  qed
  then show ?thesis by (simp add: inv x_def)
qed

lemma fl_huge_neg:
  assumes "power_int 2 1024 \<le> x"
  shows "fl (- x) = NInf"
proof -
  have "0 < (power_int 2 1024 :: rat)" by simp
  then have x0: "0 < x" using assms by (rule less_le_trans)
  from ilog2_bounds [OF x0] have U: "x < power_int 2 (ilog2 x + 1)" by simp
  have "\<not> ilog2 x + 1 \<le> 1024"
  proof
    assume "ilog2 x + 1 \<le> 1024"
    then have "power_int (2::rat) (ilog2 x + 1) \<le> power_int 2 1024"
      by (intro power_int_increasing) simp_all
    with U assms show False by simp
  qed
  then have "1024 \<le> ilog2 x" by simp
  with x0 show ?thesis
    by (simp add: fl_def Let_def)
qed

lemma py_float_int_cases:
  "py_float (IntNum n) = Inl OverflowError \<or> (\<exists>r. py_float (IntNum n) = Inr (Fin r))"
  by (cases "fl (of_int n)") (simp_all add: py_float_def)

lemma py_float_small_int:
  assumes "0 < n" and "n < 2 ^ 53"
  shows "py_float (IntNum n) = Inr (Fin (of_int n))"
  using fl_int_exact [OF assms] by (simp add: py_float_def)

lemma py_float_int_range:
  assumes "py_float (IntNum n) = Inr f"
  shows "(fle (Fin 50) f \<and> fle f (Fin 85)) = (50 \<le> n \<and> n \<le> 85)"
proof -
  consider "n \<le> 0" | "0 < n" "n < 2 ^ 53" | "2 ^ 53 \<le> n" by linarith
  then show ?thesis
  proof cases
    case 1
    then have "(of_int n :: rat) \<le> 0" by simp
    from fl_nonpos [OF this] assms 1 show ?thesis
      by (auto simp add: py_float_def)
  next
    case 2
    from py_float_small_int [OF 2] assms have "f = Fin (of_int n)" by simp
    then show ?thesis by simp
  next
    case 3
    then have "(of_int (2 ^ 53) :: rat) \<le> of_int n" by (simp only: of_int_le_iff)
    then have "power_int 2 53 \<le> (of_int n :: rat)" by simp
    from fl_large [OF this] assms 3 show ?thesis
      by (auto simp add: py_float_def)
  qed
qed

lemma in_range_finite: "in_range v \<Longrightarrow> \<exists>x. num_value v = Fin x"
  by (cases "num_value v") (simp_all add: in_range_def)

lemma set_target_float:
  "set_target (Some (FloatNum f)) w =
     (if fle (Fin 50) f \<and> fle f (Fin 85) then
        (Inr (TargetSet f, 200), w\<lparr>config := (config w)\<lparr>target_temp := f\<rparr>\<rparr>)
      else (Inr (Failure range_message, 400), w))"
  by (simp add: set_target_def py_float_def)

lemma set_target_int:
  "set_target (Some (IntNum n)) w =
     (if 50 \<le> n \<and> n \<le> 85 then
        (Inr (TargetSet (Fin (of_int n)), 200),
         w\<lparr>config := (config w)\<lparr>target_temp := Fin (of_int n)\<rparr>\<rparr>)
      else if py_float (IntNum n) = Inl OverflowError then (Inl OverflowError, w)
      else (Inr (Failure range_message, 400), w))"
proof (cases "50 \<le> n \<and> n \<le> 85")
  case True
  then have "py_float (IntNum n) = Inr (Fin (of_int n))"
    by (intro py_float_small_int) simp_all
  with True show ?thesis
    by (simp add: set_target_def)
next
  case False
  from py_float_int_cases [of n] show ?thesis
  proof
    assume "py_float (IntNum n) = Inl OverflowError"
    with False show ?thesis by (simp add: set_target_def)
  next
    assume "\<exists>r. py_float (IntNum n) = Inr (Fin r)"
    then obtain r where r: "py_float (IntNum n) = Inr (Fin r)" by blast
    from py_float_int_range [OF r] False have "\<not> (50 \<le> r \<and> r \<le> 85)" by simp
    with r False show ?thesis by (simp add: set_target_def)
  qed
qed

lemma in_range_int: "in_range (IntNum n) = (50 \<le> n \<and> n \<le> 85)"
  by (simp add: in_range_def num_value_def)

lemma in_range_float: "in_range (FloatNum f) = (fle (Fin 50) f \<and> fle f (Fin 85))"
  by (simp add: in_range_def num_value_def)

lemma set_target_cases:
  "set_target (Some v) w =
     (if in_range v then
        (Inr (TargetSet (num_value v), 200), w\<lparr>config := (config w)\<lparr>target_temp := num_value v\<rparr>\<rparr>)
      else if py_float v = Inl OverflowError then (Inl OverflowError, w)
      else (Inr (Failure range_message, 400), w))"
proof (cases v)
  case (IntNum n)
  then show ?thesis
    by (simp add: set_target_int in_range_int num_value_def)
next
  case (FloatNum f)
  then show ?thesis
    by (simp add: set_target_float in_range_float num_value_def py_float_def)
qed

lemma py_float_overflow: "py_float (IntNum (10 ^ 309)) = Inl OverflowError"
proof -
  have "fl (10 ^ 309) = PInf"
    by (rule fl_huge) simp
  then show ?thesis
    by (simp add: py_float_def)
qed

subsection \<open>The request handlers\<close>

text \<open>
  C2, as amended: for every number \<open>v\<close>, \<open>set_target\<close> answers with success exactly
  when \<open>50 \<le> v \<le> 85\<close>. On success \<open>target_temp\<close> becomes \<open>v\<close>, nothing else changes,
  the accepted value is returned, and a \<open>get_status\<close> that follows shows \<open>round(v, 1)\<close>
  as the target: the float nearest to \<open>k/10\<close> for an integer \<open>k\<close> nearest to \<open>10 v\<close>.
  Otherwise the world is unchanged, and the answer is the range error with code 400
  unless \<open>float(v)\<close> raises: for an int too large for a float (every int of magnitude
  \<open>2^1024\<close> or more, no int of magnitude below \<open>2^53\<close>, no float) the \<open>OverflowError\<close>
  leaves the handler and no range error is returned.
\<close>

theorem set_target_validates:
  "(succeeds (fst (set_target (Some v) w)) = in_range v)
   \<and> (in_range v \<longrightarrow>
        set_target (Some v) w =
          (Inr (TargetSet (num_value v), 200),
           w\<lparr>config := (config w)\<lparr>target_temp := num_value v\<rparr>\<rparr>)
        \<and> target_temp (config (snd (set_target (Some v) w))) = num_value v
        \<and> (\<exists>s. fst (get_status (snd (set_target (Some v) w))) = Inr (Status s, 200)
               \<and> st_target_temp s = round1 (num_value v)
               \<and> (\<exists>x k. num_value v = Fin x \<and> \<bar>x * 10 - of_int k\<bar> \<le> 1 / 2
                      \<and> (\<bar>x * 10 - of_int k\<bar> = 1 / 2 \<longrightarrow> even k)
                      \<and> st_target_temp s = fl (of_int k / 10))))
   \<and> (\<not> in_range v \<longrightarrow> snd (set_target (Some v) w) = w)
   \<and> (\<not> in_range v \<and> py_float v \<noteq> Inl OverflowError \<longrightarrow>
        set_target (Some v) w = (Inr (Failure range_message, 400), w))
   \<and> (py_float v = Inl OverflowError \<longrightarrow>
        \<not> in_range v \<and> set_target (Some v) w = (Inl OverflowError, w))
   \<and> ((\<exists>n. v = IntNum n \<and> (2 ^ 1024 \<le> n \<or> n \<le> - (2 ^ 1024))) \<longrightarrow>
        py_float v = Inl OverflowError)
   \<and> ((\<exists>f. v = FloatNum f) \<or> (\<exists>n. v = IntNum n \<and> - (2 ^ 53) < n \<and> n < 2 ^ 53) \<longrightarrow>
        py_float v \<noteq> Inl OverflowError)"
proof (intro conjI impI)
  show "succeeds (fst (set_target (Some v) w)) = in_range v"
    by (simp add: set_target_cases succeeds_def)
next
  assume "in_range v"
  then show "set_target (Some v) w =
      (Inr (TargetSet (num_value v), 200), w\<lparr>config := (config w)\<lparr>target_temp := num_value v\<rparr>\<rparr>)"
    by (simp add: set_target_cases)
next
  assume "in_range v"
  then show "target_temp (config (snd (set_target (Some v) w))) = num_value v"
    by (simp add: set_target_cases)
next
  assume r: "in_range v"
  then obtain x where x: "num_value v = Fin x"
    using in_range_finite by blast
  from round1_Fin [of x] obtain k where k: "\<bar>x * 10 - of_int k\<bar> \<le> 1 / 2"
    "\<bar>x * 10 - of_int k\<bar> = 1 / 2 \<longrightarrow> even k" "round1 (Fin x) = fl (of_int k / 10)"
    by blast
  let ?s = "\<lparr>st_current_temp = round1 (current_temp (config w)),
             st_target_temp = round1 (num_value v),
             st_heater_on = heater_on (config w),
             st_auto_mode = auto_mode (config w),
             st_temp_history = last_n 20 (temp_history (config w))\<rparr>"
  have g: "fst (get_status (snd (set_target (Some v) w))) = Inr (Status ?s, 200)"
    using r by (simp add: set_target_cases get_status_def Let_def)
  have "st_target_temp ?s = round1 (num_value v)" by simp
  moreover have "\<exists>x k. num_value v = Fin x \<and> \<bar>x * 10 - of_int k\<bar> \<le> 1 / 2
      \<and> (\<bar>x * 10 - of_int k\<bar> = 1 / 2 \<longrightarrow> even k)
      \<and> st_target_temp ?s = fl (of_int k / 10)"
    using x k by auto
  ultimately show "\<exists>s. fst (get_status (snd (set_target (Some v) w))) = Inr (Status s, 200)
      \<and> st_target_temp s = round1 (num_value v)
      \<and> (\<exists>x k. num_value v = Fin x \<and> \<bar>x * 10 - of_int k\<bar> \<le> 1 / 2
             \<and> (\<bar>x * 10 - of_int k\<bar> = 1 / 2 \<longrightarrow> even k)
             \<and> st_target_temp s = fl (of_int k / 10))"
    using g by blast
next
  assume "\<not> in_range v"
  then show "snd (set_target (Some v) w) = w"
    by (simp add: set_target_cases)
next
  assume "\<not> in_range v \<and> py_float v \<noteq> Inl OverflowError"
  then show "set_target (Some v) w = (Inr (Failure range_message, 400), w)"
    by (simp add: set_target_cases)
next
  assume o: "py_float v = Inl OverflowError"
  show "\<not> in_range v"
  proof (cases v)
    case (IntNum n)
    show ?thesis
    proof
      assume "in_range v"
      with IntNum have "50 \<le> n \<and> n \<le> 85" by (simp add: in_range_int)
      then have "py_float (IntNum n) = Inr (Fin (of_int n))"
        by (intro py_float_small_int) simp_all
      with o IntNum show False by simp
    qed
  next
    case (FloatNum f)
    with o show ?thesis by (simp add: py_float_def)
  qed
  then show "set_target (Some v) w = (Inl OverflowError, w)"
    using o by (simp add: set_target_cases)
next
  assume "\<exists>n. v = IntNum n \<and> (2 ^ 1024 \<le> n \<or> n \<le> - (2 ^ 1024))"
  then obtain n where v: "v = IntNum n" and n: "2 ^ 1024 \<le> n \<or> n \<le> - (2 ^ 1024)"
    by blast
  from n show "py_float v = Inl OverflowError"
  proof
    assume "2 ^ 1024 \<le> n"
    then have "(of_int (2 ^ 1024) :: rat) \<le> of_int n" by (simp only: of_int_le_iff)
    then have "power_int 2 1024 \<le> (of_int n :: rat)" by simp
    then have "fl (of_int n) = PInf" by (rule fl_huge)
    then show ?thesis by (simp add: v py_float_def)
  next
    assume "n \<le> - (2 ^ 1024)"
    then have "2 ^ 1024 \<le> - n" by simp
    then have "(of_int (2 ^ 1024) :: rat) \<le> of_int (- n)" by (simp only: of_int_le_iff)
    then have "power_int 2 1024 \<le> (of_int (- n) :: rat)" by simp
    then have "fl (- of_int (- n)) = NInf" by (rule fl_huge_neg)
    then show ?thesis by (simp add: v py_float_def)
  qed
next
  assume "(\<exists>f. v = FloatNum f) \<or> (\<exists>n. v = IntNum n \<and> - (2 ^ 53) < n \<and> n < 2 ^ 53)"
  then show "py_float v \<noteq> Inl OverflowError"
  proof
    assume "\<exists>f. v = FloatNum f"
    then show ?thesis by (auto simp add: py_float_def)
  next
    assume "\<exists>n. v = IntNum n \<and> - (2 ^ 53) < n \<and> n < 2 ^ 53"
    then obtain n where v: "v = IntNum n" and n: "- (2 ^ 53) < n" "n < 2 ^ 53" by blast
    consider "n = 0" | "0 < n" | "n < 0" by linarith
    then show ?thesis
    proof cases
      case 1
      then show ?thesis by (simp add: v py_float_def fl_def)
    next
      case 2
      from py_float_small_int [OF 2 n(2)] show ?thesis by (simp add: v)
    next
      case 3
      then have p: "0 < - n" and q: "- n < 2 ^ 53" using n by simp_all
      have "(of_int n :: rat) \<le> 0" using 3 by simp
      from fl_nonpos [OF this] show ?thesis
      proof
        assume inf: "fl (of_int n) = NInf"
        have x0: "(0::rat) < of_int (- n)" using p by (simp only: of_int_0_less_iff)
        have "(of_int (- n) :: rat) < of_int (2 ^ 53)" using q by (simp only: of_int_less_iff)
        then have B: "(of_int (- n) :: rat) < power_int 2 1023" by simp
        have A: "power_int 2 (ilog2 (of_int (- n))) \<le> (of_int (- n) :: rat)"
          using ilog2_bounds [OF x0] by simp
        from A B have "power_int (2::rat) (ilog2 (of_int (- n))) < power_int 2 1023"
          by (rule le_less_trans)
        have e: "ilog2 (of_int (- n) :: rat) < 1023"
        proof (rule ccontr)
          assume "\<not> ilog2 (of_int (- n) :: rat) < 1023"
          then have "power_int (2::rat) 1023 \<le> power_int 2 (ilog2 (of_int (- n)))"
            by (intro power_int_increasing) simp_all
          with \<open>power_int (2::rat) (ilog2 (of_int (- n))) < power_int 2 1023\<close>
          show False by simp
        qed
        define E where "E = max (ilog2 (- (of_int n :: rat))) (- 1022)"
        have "E < 1023" using e by (simp add: E_def)
        then have "E \<noteq> 1023" and "\<not> 1024 \<le> E" by simp_all
        then have "fl (of_int n) \<noteq> NInf"
          using 3 by (simp add: fl_def Let_def E_def [symmetric])
        with inf show ?thesis by simp
      next
        assume "\<exists>r. fl (of_int n) = Fin r \<and> r \<le> 0"
        then show ?thesis by (auto simp add: v py_float_def)
      qed
    qed
  qed
qed

theorem set_target_validates_witness:
  "set_target (Some (IntNum 70)) world_init =
      (Inr (TargetSet (Fin 70), 200),
       world_init\<lparr>config := (config world_init)\<lparr>target_temp := Fin 70\<rparr>\<rparr>)
   \<and> (\<exists>s. fst (get_status (snd (set_target
            (Some (FloatNum (Fin (2334483088094003 / 35184372088832)))) world_init)))
          = Inr (Status s, 200)
        \<and> st_target_temp s = Fin (4665447738979123 / 70368744177664))
   \<and> set_target (Some (IntNum 49)) world_init = (Inr (Failure range_message, 400), world_init)
   \<and> set_target (Some (FloatNum NaN)) world_init = (Inr (Failure range_message, 400), world_init)
   \<and> set_target (Some (IntNum (10 ^ 309))) world_init = (Inl OverflowError, world_init)"
proof -
  have a: "in_range (IntNum 70)" and a': "num_value (IntNum 70) = Fin 70"
    by (simp_all add: in_range_def num_value_def)
  have b: "in_range (FloatNum (Fin (2334483088094003 / 35184372088832)))"
    and b': "num_value (FloatNum (Fin (2334483088094003 / 35184372088832)))
      = Fin (2334483088094003 / 35184372088832)"
    by (simp_all add: in_range_def num_value_def)
  have c: "\<not> in_range (IntNum 49) \<and> py_float (IntNum 49) \<noteq> Inl OverflowError"
    using py_float_small_int [of 49] by (simp add: in_range_def num_value_def)
  have d: "\<not> in_range (FloatNum NaN) \<and> py_float (FloatNum NaN) \<noteq> Inl OverflowError"
    by (simp add: in_range_def num_value_def py_float_def)
  note e = py_float_overflow
  from set_target_validates [of "IntNum 70" world_init] a
  have r1: "set_target (Some (IntNum 70)) world_init =
      (Inr (TargetSet (Fin 70), 200),
       world_init\<lparr>config := (config world_init)\<lparr>target_temp := Fin 70\<rparr>\<rparr>)"
    by (simp add: a')
  from set_target_validates
    [of "FloatNum (Fin (2334483088094003 / 35184372088832))" world_init] b
  have r2: "\<exists>s. fst (get_status (snd (set_target
            (Some (FloatNum (Fin (2334483088094003 / 35184372088832)))) world_init)))
          = Inr (Status s, 200)
        \<and> st_target_temp s = Fin (4665447738979123 / 70368744177664)"
    unfolding b' round1_6635 by blast
  from set_target_validates [of "IntNum 49" world_init] c
  have r3: "set_target (Some (IntNum 49)) world_init
      = (Inr (Failure range_message, 400), world_init)"
    by blast
  from set_target_validates [of "FloatNum NaN" world_init] d
  have r4: "set_target (Some (FloatNum NaN)) world_init
      = (Inr (Failure range_message, 400), world_init)"
    by blast
  from set_target_validates [of "IntNum (10 ^ 309)" world_init] e
  have r5: "set_target (Some (IntNum (10 ^ 309))) world_init = (Inl OverflowError, world_init)"
    by blast
  from r1 r2 r3 r4 r5 show ?thesis by blast
qed

text \<open>
  The claim C2 as first stated (every value outside the range gets the validation
  error) fails for the JSON integer \<open>10^309\<close>: \<open>float\<close> raises \<open>OverflowError\<close>, which
  leaves the handler.
\<close>

theorem set_target_overflow_counterexample:
  "\<not> in_range (IntNum (10 ^ 309))
   \<and> set_target (Some (IntNum (10 ^ 309))) world_init = (Inl OverflowError, world_init)
   \<and> fst (set_target (Some (IntNum (10 ^ 309))) world_init)
       \<noteq> Inr (Failure range_message, 400)"
proof -
  have s: "set_target (Some (IntNum (10 ^ 309))) world_init = (Inl OverflowError, world_init)"
    by (simp only: set_target_def option.case py_float_overflow sum.case)
  have r: "\<not> in_range (IntNum (10 ^ 309))"
    by (simp add: in_range_def num_value_def)
  show ?thesis
    unfolding s using r by simp
qed


text \<open>
  C8: for every boolean \<open>b\<close> and every state, \<open>set_mode\<close> answers with success, sets
  \<open>auto_mode\<close> to \<open>b\<close> and leaves \<open>heater_on\<close>, \<open>current_temp\<close>, \<open>target_temp\<close>, the
  history and the plug untouched.
\<close>

theorem set_mode_frame:
  "fst (set_mode (Some b) w) = Inr (ModeSet b, 200)
   \<and> succeeds (fst (set_mode (Some b) w))
   \<and> auto_mode (config (snd (set_mode (Some b) w))) = b
   \<and> heater_on (config (snd (set_mode (Some b) w))) = heater_on (config w)
   \<and> current_temp (config (snd (set_mode (Some b) w))) = current_temp (config w)
   \<and> target_temp (config (snd (set_mode (Some b) w))) = target_temp (config w)
   \<and> temp_history (config (snd (set_mode (Some b) w))) = temp_history (config w)
   \<and> plug_calls (snd (set_mode (Some b) w)) = plug_calls w"
  by (simp add: set_mode_def succeeds_def)

text \<open>
  C10: a \<open>set_target\<close> request whose body has no \<open>target\<close> field takes the default 22,
  which the range check refuses: the answer is the range error with code 400 and the
  world is unchanged.
\<close>

theorem set_target_missing_field:
  "set_target None w = (Inr (Failure range_message, 400), w)
   \<and> \<not> succeeds (fst (set_target None w))"
  by (simp add: set_target_def py_float_def fl_22 succeeds_def)

text \<open>
  C7: \<open>get_status\<close> never fails. In every state it answers with code 200 and a
  snapshot holding \<open>current_temp\<close> and \<open>target_temp\<close> rounded to one decimal,
  \<open>heater_on\<close>, \<open>auto_mode\<close>, and the last 20 history entries (fewer when the history
  is shorter), in the order of the history, the most recent last; the world is
  unchanged. Rounded to one decimal means: for a finite temperature \<open>x\<close> the value shown
  is the float nearest to \<open>k/10\<close>, where \<open>k\<close> is an integer nearest to \<open>10 x\<close> (the even
  one on an exact tie); an infinity or NaN is shown as it is.
\<close>

theorem get_status_snapshot:
  "\<exists>s. get_status w = (Inr (Status s, 200), w)
      \<and> succeeds (fst (get_status w))
      \<and> st_current_temp s = round1 (current_temp (config w))
      \<and> st_target_temp s = round1 (target_temp (config w))
      \<and> (\<forall>x. current_temp (config w) = Fin x \<longrightarrow>
            (\<exists>k. \<bar>x * 10 - of_int k\<bar> \<le> 1 / 2 \<and> (\<bar>x * 10 - of_int k\<bar> = 1 / 2 \<longrightarrow> even k)
                \<and> st_current_temp s = fl (of_int k / 10)))
      \<and> (\<forall>x. target_temp (config w) = Fin x \<longrightarrow>
            (\<exists>k. \<bar>x * 10 - of_int k\<bar> \<le> 1 / 2 \<and> (\<bar>x * 10 - of_int k\<bar> = 1 / 2 \<longrightarrow> even k)
                \<and> st_target_temp s = fl (of_int k / 10)))
      \<and> (current_temp (config w) \<in> {PInf, NInf, NaN} \<longrightarrow>
            st_current_temp s = current_temp (config w))
      \<and> (target_temp (config w) \<in> {PInf, NInf, NaN} \<longrightarrow>
            st_target_temp s = target_temp (config w))
      \<and> st_heater_on s = heater_on (config w)
      \<and> st_auto_mode s = auto_mode (config w)
      \<and> st_temp_history s = last_n 20 (temp_history (config w))
      \<and> length (st_temp_history s) \<le> 20
      \<and> take (length (temp_history (config w)) - 20) (temp_history (config w)) @ st_temp_history s
          = temp_history (config w)"
proof -
  let ?s = "\<lparr>st_current_temp = round1 (current_temp (config w)),
             st_target_temp = round1 (target_temp (config w)),
             st_heater_on = heater_on (config w),
             st_auto_mode = auto_mode (config w),
             st_temp_history = last_n 20 (temp_history (config w))\<rparr>"
  have g: "get_status w = (Inr (Status ?s, 200), w)"
    by (simp add: get_status_def Let_def)
  have c: "\<forall>x. current_temp (config w) = Fin x \<longrightarrow>
      (\<exists>k. \<bar>x * 10 - of_int k\<bar> \<le> 1 / 2 \<and> (\<bar>x * 10 - of_int k\<bar> = 1 / 2 \<longrightarrow> even k)
          \<and> st_current_temp ?s = fl (of_int k / 10))"
    using round1_Fin by simp
  have t: "\<forall>x. target_temp (config w) = Fin x \<longrightarrow>
      (\<exists>k. \<bar>x * 10 - of_int k\<bar> \<le> 1 / 2 \<and> (\<bar>x * 10 - of_int k\<bar> = 1 / 2 \<longrightarrow> even k)
          \<and> st_target_temp ?s = fl (of_int k / 10))"
    using round1_Fin by simp
  have o: "current_temp (config w) \<in> {PInf, NInf, NaN} \<longrightarrow>
        st_current_temp ?s = current_temp (config w)"
      "target_temp (config w) \<in> {PInf, NInf, NaN} \<longrightarrow>
        st_target_temp ?s = target_temp (config w)"
    using round1_other by simp_all
  have h: "length (st_temp_history ?s) \<le> 20"
    "take (length (temp_history (config w)) - 20) (temp_history (config w)) @ st_temp_history ?s
          = temp_history (config w)"
    by (simp_all add: last_n_def)
  show ?thesis
    apply (rule exI [of _ ?s])
    apply (intro conjI)
    using g c t o h by (simp_all add: succeeds_def)
qed

theorem get_status_snapshot_witness:
  "\<exists>s. get_status world_6635 = (Inr (Status s, 200), world_6635)
      \<and> st_current_temp s = Fin 64
      \<and> st_target_temp s = Fin (4665447738979123 / 70368744177664)
      \<and> st_heater_on s = False
      \<and> st_auto_mode s = True
      \<and> st_temp_history s = []"
proof -
  from get_status_snapshot [of world_6635] obtain s where
    g: "get_status world_6635 = (Inr (Status s, 200), world_6635)"
    and c: "st_current_temp s = round1 (current_temp (config world_6635))"
    and t: "st_target_temp s = round1 (target_temp (config world_6635))"
    and h: "st_heater_on s = heater_on (config world_6635)"
    and a: "st_auto_mode s = auto_mode (config world_6635)"
    and l: "st_temp_history s = last_n 20 (temp_history (config world_6635))"
    by blast
  have "st_current_temp s = Fin 64"
    unfolding c by (simp add: world_6635_config HeaterConfig_init_def round1_64)
  moreover have "st_target_temp s = Fin (4665447738979123 / 70368744177664)"
    unfolding t by (simp add: world_6635_config round1_6635)
  moreover have "st_heater_on s = False" "st_auto_mode s = True" "st_temp_history s = []"
    unfolding h a l by (simp_all add: world_6635_config HeaterConfig_init_def last_n_def)
  ultimately show ?thesis
    using g by blast
qed

text \<open>
  C5, as amended: \<open>set_heater\<close> answers with the mode error (code 400) if and only if
  \<open>auto_mode\<close> is true, and then the world is unchanged. When \<open>auto_mode\<close> is false it
  sets \<open>heater_on\<close> to the requested value and calls the plug, changing nothing else;
  it answers with success if and only if the call of the plug returns, and the
  exception of the plug leaves the handler if and only if the call raises.
\<close>

theorem set_heater_manual_only:
  "(auto_mode (config w) \<longrightarrow>
        set_heater (Some on) pl w = (Inr (Failure mode_message, 400), w))
   \<and> ((fst (set_heater (Some on) pl w) = Inr (Failure mode_message, 400)) = auto_mode (config w))
   \<and> (\<not> auto_mode (config w) \<longrightarrow>
        snd (set_heater (Some on) pl w) =
          w\<lparr>config := (config w)\<lparr>heater_on := on\<rparr>, plug_calls := plug_calls w @ [on]\<rparr>
        \<and> heater_on (config (snd (set_heater (Some on) pl w))) = on)
   \<and> (succeeds (fst (set_heater (Some on) pl w)) = (\<not> auto_mode (config w) \<and> pl = PlugReturns))
   \<and> (fst (set_heater (Some on) pl w) = Inr (HeaterSet on, 200)) =
        (\<not> auto_mode (config w) \<and> pl = PlugReturns)
   \<and> (fst (set_heater (Some on) pl w) = Inl PlugError) =
        (\<not> auto_mode (config w) \<and> pl = PlugRaises)"
  by (cases pl) (simp_all add: set_heater_def control_heater_def succeeds_def Let_def)

theorem set_heater_manual_only_witness:
  "set_heater (Some True) PlugReturns world_init = (Inr (Failure mode_message, 400), world_init)
   \<and> snd (set_heater (Some True) PlugReturns manual_world) =
        manual_world\<lparr>config := (config manual_world)\<lparr>heater_on := True\<rparr>,
                      plug_calls := plug_calls manual_world @ [True]\<rparr>
   \<and> heater_on (config (snd (set_heater (Some True) PlugReturns manual_world))) = True
   \<and> fst (set_heater (Some True) PlugReturns manual_world) = Inr (HeaterSet True, 200)
   \<and> fst (set_heater (Some True) PlugRaises manual_world) = Inl PlugError
   \<and> fst (set_heater (Some True) PlugRaises manual_world) \<noteq> Inr (Failure mode_message, 400)"
proof -
  have a: "auto_mode (config world_init)"
    by (simp add: world_init_def HeaterConfig_init_def)
  have m: "\<not> auto_mode (config manual_world)"
    by (simp add: manual_world_def set_mode_def)
  from a m set_heater_manual_only [of world_init True PlugReturns]
    set_heater_manual_only [of manual_world True PlugReturns]
    set_heater_manual_only [of manual_world True PlugRaises]
  show ?thesis by blast
qed

text \<open>
  The claim C5 as first stated (success if and only if \<open>auto_mode\<close> is false) fails in
  manual mode when the plug raises: the exception leaves the handler.
\<close>

theorem set_heater_auto_counterexample:
  "\<not> auto_mode (config manual_world)
   \<and> \<not> succeeds (fst (set_heater (Some True) PlugRaises manual_world))
   \<and> fst (set_heater (Some True) PlugRaises manual_world) = Inl PlugError"
  by (simp add: manual_world_def set_mode_def world_init_def HeaterConfig_init_def
      set_heater_def control_heater_def succeeds_def Let_def)

subsection \<open>Failures of the plug\<close>

text \<open>
  C6, as amended: \<open>control_heater\<close> assigns \<open>heater_on\<close> before it calls the plug. When
  the call raises, \<open>heater_on\<close> holds the commanded value and the call is on record:
  the world after a failed command is the world after a successful one, in
  \<open>control_heater\<close> and in a whole loop iteration. So \<open>heater_on\<close> is the last command
  issued, whether or not it took effect.
\<close>

theorem control_heater_records_command:
  "fst (control_heater b PlugRaises w) = Inl PlugError
   \<and> heater_on (config (snd (control_heater b PlugRaises w))) = b
   \<and> plug_calls (snd (control_heater b PlugRaises w)) = plug_calls w @ [b]
   \<and> snd (control_heater b PlugRaises w) = snd (control_heater b PlugReturns w)
   \<and> monitor_cycle (env\<lparr>plug_in := PlugRaises\<rparr>) w = monitor_cycle (env\<lparr>plug_in := PlugReturns\<rparr>) w"
  by (simp add: control_heater_def Let_def monitor_cycle_def monitor_try_def
      split: sum.splits option.splits)

text \<open>
  The claim C6 as first stated (a failed command does not mark \<open>heater_on\<close> changed)
  fails at start-up: the heater is off, the command to turn on raises, and \<open>heater_on\<close>
  is true afterwards, also at the end of the loop iteration that issued the command.
\<close>

theorem control_heater_failure_counterexample:
  "heater_on (config world_init) = False
   \<and> fst (control_heater True PlugRaises world_init) = Inl PlugError
   \<and> heater_on (config (snd (control_heater True PlugRaises world_init))) = True
   \<and> heater_on (config (monitor_cycle (reading 18 PlugRaises) world_init)) = True"
  by (simp add: control_heater_def world_init_def HeaterConfig_init_def Let_def
      monitor_cycle_reading reading_def C2F_18 fsub_def fl_131_2)

subsection \<open>The temperature before the first reading\<close>

lemma reported_current_temp_eq:
  "reported_current_temp w = Some (round1 (current_temp (config w)))"
  by (simp add: reported_current_temp_def get_status_def Let_def)

lemma current_temp_step:
  assumes "\<not> successful r"
  shows "current_temp (config (step r w)) = current_temp (config w)"
proof (cases r)
  case (Cycle env)
  with assms show ?thesis
    by (cases "sensor_in env")
      (simp_all add: successful_def monitor_cycle_def monitor_try_def read_temperature_def)
next
  case (SetHeater f pl)
  then show ?thesis
    by (cases pl) (simp_all add: set_heater_def control_heater_def Let_def)
qed (simp_all add: get_status_def set_target_def set_mode_def Let_def split: sum.splits)

lemma current_temp_run:
  "\<forall>r \<in> set rs. \<not> successful r \<Longrightarrow>
   current_temp (config (run rs w)) = current_temp (config w)"
  by (induction rs arbitrary: w) (simp_all add: current_temp_step)

text \<open>
  C9, as amended: \<open>current_temp\<close> is never absent. It starts at the default 64.0 and
  keeps that value as long as no loop iteration has read the sensor with success,
  whatever requests are served meanwhile; \<open>get_status\<close> then shows 64.0 as the current
  temperature.
\<close>

theorem current_temp_default:
  assumes "\<forall>r \<in> set rs. \<not> successful r"
  shows "current_temp (config (run rs world_init)) = Fin 64
     \<and> reported_current_temp (run rs world_init) = Some (Fin 64)"
proof -
  have "current_temp (config (run rs world_init)) = current_temp (config world_init)"
    using assms by (rule current_temp_run)
  then have "current_temp (config (run rs world_init)) = Fin 64"
    by (simp add: world_init_def HeaterConfig_init_def)
  then show ?thesis
    by (simp add: reported_current_temp_eq round1_64)
qed

theorem current_temp_default_witness:
  "current_temp (config (run quiet_run world_init)) = Fin 64
   \<and> reported_current_temp (run quiet_run world_init) = Some (Fin 64)"
proof -
  have "\<forall>r \<in> set quiet_run. \<not> successful r"
    by (simp add: quiet_run_def successful_def no_reading_def)
  then show ?thesis
    by (rule current_temp_default)
qed

text \<open>
  The claim C9 as first stated (no temperature value before the first successful
  reading) fails at start-up: the state holds 64 and \<open>get_status\<close> shows it.
\<close>

theorem current_temp_absent_counterexample:
  "current_temp (config world_init) = Fin 64 \<and> reported_current_temp world_init = Some (Fin 64)"
  by (simp add: reported_current_temp_eq round1_64 world_init_def HeaterConfig_init_def)

end
